theory Spec2Isabelle
  imports Main "HOL-Library.Word" "HOL-Library.List_Lexorder"
begin

text \<open>
  The state engine and the peer manager of the aergo node, as Go has them: each
  operation is a function from the state before the call to its result and the state
  after it. Locks and goroutines are left out; every operation is taken to run alone.
\<close>

section \<open>The state engine (state/statedb.go)\<close>

subsection \<open>Data model\<close>

text \<open>
  \<^verbatim>\<open>types.BlockNo\<close> is \<^verbatim>\<open>uint64\<close>; \<^verbatim>\<open>types.BlockID\<close> and \<^verbatim>\<open>types.AccountID\<close> are
  32-byte arrays, compared with \<^verbatim>\<open>==\<close> and, for the trie keys, with \<^verbatim>\<open>bytes.Compare\<close>
  on the slice \<^verbatim>\<open>v[:]\<close>. They are byte lists here. A \<^verbatim>\<open>*types.State\<close> is an optional
  account state: \<open>None\<close> is the nil pointer. The account state itself (\<^verbatim>\<open>types.State\<close>)
  is defined outside \<^verbatim>\<open>statedb.go\<close> and stays a type parameter \<open>'st\<close>.
\<close>

type_synonym bytes = "8 word list"
type_synonym BlockNo = "64 word"
type_synonym BlockID = bytes
type_synonym AccountID = bytes

definition emptyBlockID :: BlockID where
  "emptyBlockID = replicate 32 0"

definition emptyAccountID :: AccountID where
  "emptyAccountID = replicate 32 0"

record BlockInfo =
  BlockNo :: BlockNo
  BlockHash :: BlockID
  PrevHash :: BlockID

record 'st StateEntry =
  State :: "'st option"
  Undo :: "'st option"

text \<open>
  \<^verbatim>\<open>BlockState.accounts\<close> is a Go map. It is an association list with distinct keys
  here; the order of the list is the order in which one \<^verbatim>\<open>range\<close> loop happens to
  visit the map, which Go leaves unspecified.
\<close>

record 'st BlockState =
  info :: BlockInfo
  bstate_accounts :: "(AccountID \<times> 'st StateEntry) list"

datatype error =
    ErrInvalidAccountID
  | ErrApplyInvalidBlockNo BlockNo BlockNo
  | ErrApplyInvalidPrevBlock BlockID BlockID
  | ErrRollbackInvalidBlockNo
  | External string

text \<open>
  What a call does: it returns normally with a value, returns an error, or panics
  (a nil dereference or an index out of range).
\<close>

datatype 'a result = Ok 'a | Err error | Panic

text \<open>
  The calls the engine makes on its trie, in the order it makes them. The field
  \<open>trie_calls\<close> of the engine below is this history; it is not a field of the Go
  struct, and no operation reads it.
\<close>

datatype trie_call = CallUpdate "bytes list" "bytes list" | CallCommit

record ('st, 'trie, 'db) ChainStateDB =
  accounts :: "AccountID \<rightharpoonup> 'st option"
  trie :: 'trie
  latest :: "BlockInfo option"
  statedb :: 'db
  trie_calls :: "trie_call list"

text \<open>
  The collaborators of \<^verbatim>\<open>statedb.go\<close> that are defined outside it are parameters of the
  model: the methods of \<^verbatim>\<open>types.State\<close>, the trie of \<^verbatim>\<open>pkg/trie\<close>, and the
  persistence methods \<^verbatim>\<open>saveBlockState\<close>, \<^verbatim>\<open>loadBlockState\<close> and \<^verbatim>\<open>saveStateDB\<close>.
  \<^item> \<open>st_GetHash\<close> takes the receiver, which may be nil; \<open>None\<close> is a panic inside it.
  \<^item> \<open>trie_Update\<close> returns its error, if any, and the trie it leaves behind.
  \<^item> \<open>saveBlockState\<close> returns the store it leaves behind (its callers drop its result).
  \<^item> \<open>saveStateDB\<close> reads the account map and the latest pointer, and returns its
    error, if any, and the store it leaves behind.
\<close>

record ('st, 'trie, 'db) collab =
  st_NewState :: 'st
  st_IsEmpty :: "'st \<Rightarrow> bool"
  st_GetHash :: "'st option \<Rightarrow> bytes option"
  trie_Update :: "'trie \<Rightarrow> bytes list \<Rightarrow> bytes list \<Rightarrow> string option \<times> 'trie"
  trie_Commit :: "'trie \<Rightarrow> 'trie"
  trie_Root :: "'trie \<Rightarrow> bytes"
  saveBlockState :: "'db \<Rightarrow> 'st BlockState \<Rightarrow> 'db"
  loadBlockState :: "'db \<Rightarrow> BlockID \<Rightarrow> string + 'st BlockState"
  saveStateDB :: "'db \<Rightarrow> (AccountID \<rightharpoonup> 'st option) \<Rightarrow> BlockInfo option
                   \<Rightarrow> string option \<times> 'db"

subsection \<open>Block states\<close>

definition NewStateEntry ::
  "('st, 'trie, 'db) collab \<Rightarrow> 'st option \<Rightarrow> 'st option \<Rightarrow> 'st StateEntry" where
  "NewStateEntry c state undo =
     (let undo' = (case undo of
                     None \<Rightarrow> None
                   | Some u \<Rightarrow> if st_IsEmpty c u then None else Some u)
      in \<lparr>State = state, Undo = undo'\<rparr>)"

definition NewBlockState :: "BlockNo \<Rightarrow> BlockID \<Rightarrow> BlockID \<Rightarrow> 'st BlockState" where
  "NewBlockState blockNo blockHash prevHash =
     \<lparr>info = \<lparr>BlockNo = blockNo, BlockHash = blockHash, PrevHash = prevHash\<rparr>,
      bstate_accounts = []\<rparr>"

definition PutAccount ::
  "('st, 'trie, 'db) collab \<Rightarrow> AccountID \<Rightarrow> 'st option \<Rightarrow> 'st option
     \<Rightarrow> 'st BlockState \<Rightarrow> 'st BlockState" where
  "PutAccount c aid state change bs =
     (case map_of (bstate_accounts bs) aid of
        Some prev \<Rightarrow>
          bs\<lparr>bstate_accounts :=
               map (\<lambda>(k, v). if k = aid then (k, v\<lparr>State := change\<rparr>) else (k, v))
                 (bstate_accounts bs)\<rparr>
      | None \<Rightarrow>
          bs\<lparr>bstate_accounts := bstate_accounts bs @ [(aid, NewStateEntry c change state)]\<rparr>)"

subsection \<open>Account access\<close>

definition getAccountState ::
  "('st, 'trie, 'db) collab \<Rightarrow> AccountID \<Rightarrow> ('st, 'trie, 'db) ChainStateDB
     \<Rightarrow> 'st option result \<times> ('st, 'trie, 'db) ChainStateDB" where
  "getAccountState c aid sdb =
     (if aid = emptyAccountID then (Err ErrInvalidAccountID, sdb)
      else case accounts sdb aid of
             Some state \<Rightarrow> (Ok state, sdb)
           | None \<Rightarrow>
               (let state = Some (st_NewState c)
                in (Ok state, sdb\<lparr>accounts := (accounts sdb)(aid \<mapsto> state)\<rparr>)))"

text \<open>
  \<^verbatim>\<open>types.Clone(*state)\<close> dereferences the pointer it got: a nil entry of the account
  map panics here. The clone of a state is the state.
\<close>

definition GetAccountStateClone ::
  "('st, 'trie, 'db) collab \<Rightarrow> AccountID \<Rightarrow> ('st, 'trie, 'db) ChainStateDB
     \<Rightarrow> 'st result \<times> ('st, 'trie, 'db) ChainStateDB" where
  "GetAccountStateClone c aid sdb =
     (case getAccountState c aid sdb of
        (Err e, sdb') \<Rightarrow> (Err e, sdb')
      | (Panic, sdb') \<Rightarrow> (Panic, sdb')
      | (Ok None, sdb') \<Rightarrow> (Panic, sdb')
      | (Ok (Some st), sdb') \<Rightarrow> (Ok st, sdb'))"

definition getBlockAccount ::
  "('st, 'trie, 'db) collab \<Rightarrow> 'st BlockState \<Rightarrow> AccountID \<Rightarrow> ('st, 'trie, 'db) ChainStateDB
     \<Rightarrow> 'st option result \<times> ('st, 'trie, 'db) ChainStateDB" where
  "getBlockAccount c bs aid sdb =
     (if aid = emptyAccountID then (Err ErrInvalidAccountID, sdb)
      else case map_of (bstate_accounts bs) aid of
             Some prev \<Rightarrow> (Ok (State prev), sdb)
           | None \<Rightarrow> getAccountState c aid sdb)"

definition GetBlockAccountClone ::
  "('st, 'trie, 'db) collab \<Rightarrow> 'st BlockState \<Rightarrow> AccountID \<Rightarrow> ('st, 'trie, 'db) ChainStateDB
     \<Rightarrow> 'st result \<times> ('st, 'trie, 'db) ChainStateDB" where
  "GetBlockAccountClone c bs aid sdb =
     (case getBlockAccount c bs aid sdb of
        (Err e, sdb') \<Rightarrow> (Err e, sdb')
      | (Panic, sdb') \<Rightarrow> (Panic, sdb')
      | (Ok None, sdb') \<Rightarrow> (Panic, sdb')
      | (Ok (Some st), sdb') \<Rightarrow> (Ok st, sdb'))"

subsection \<open>The trie update\<close>

text \<open>\<^verbatim>\<open>bytes.Compare\<close>: lexicographic on unsigned bytes, a proper prefix first.\<close>

fun bytes_Compare :: "bytes \<Rightarrow> bytes \<Rightarrow> int" where
  "bytes_Compare [] [] = 0"
| "bytes_Compare [] (y # ys) = - 1"
| "bytes_Compare (x # xs) [] = 1"
| "bytes_Compare (x # xs) (y # ys) =
     (if x < y then - 1 else if y < x then 1 else bytes_Compare xs ys)"

text \<open>
  \<^verbatim>\<open>sort.Slice\<close> of the Go library sorts by the \<^verbatim>\<open>less\<close> function it is given and is
  not stable; an insertion sort by \<^verbatim>\<open>less\<close> stands for it.
\<close>

fun insert_less :: "('a \<Rightarrow> 'a \<Rightarrow> bool) \<Rightarrow> 'a \<Rightarrow> 'a list \<Rightarrow> 'a list" where
  "insert_less lt x [] = [x]"
| "insert_less lt x (y # ys) =
     (if lt x y then x # y # ys else y # insert_less lt x ys)"

fun sort_Slice :: "('a \<Rightarrow> 'a \<Rightarrow> bool) \<Rightarrow> 'a list \<Rightarrow> 'a list" where
  "sort_Slice lt [] = []"
| "sort_Slice lt (x # xs) = insert_less lt x (sort_Slice lt xs)"

text \<open>The sorted account ids of a block state: \<^verbatim>\<open>accs\<close> after \<^verbatim>\<open>sort.Slice\<close>.\<close>

definition updateTrie_accs :: "'st BlockState \<Rightarrow> AccountID list" where
  "updateTrie_accs bstate =
     sort_Slice (\<lambda>a b. bytes_Compare a b = - 1) (map fst (bstate_accounts bstate))"

text \<open>
  The value of one key: the hash of the entry's \<^verbatim>\<open>Undo\<close> or of its \<^verbatim>\<open>State\<close>. Every
  key comes from the map, so the lookup finds its entry.
\<close>

definition updateTrie_val ::
  "('st, 'trie, 'db) collab \<Rightarrow> 'st BlockState \<Rightarrow> bool \<Rightarrow> AccountID \<Rightarrow> bytes option" where
  "updateTrie_val c bstate undo v =
     (case map_of (bstate_accounts bstate) v of
        None \<Rightarrow> None
      | Some e \<Rightarrow> if undo then st_GetHash c (Undo e) else st_GetHash c (State e))"

fun collect_vals :: "bytes option list \<Rightarrow> bytes list option" where
  "collect_vals [] = Some []"
| "collect_vals (None # hs) = None"
| "collect_vals (Some h # hs) =
     (case collect_vals hs of None \<Rightarrow> None | Some vs \<Rightarrow> Some (h # vs))"

text \<open>
  The loop \<^verbatim>\<open>for i, v := range accs { keys[i] = v[:]; vals[i] = \<dots> }\<close>. \<^verbatim>\<open>AccountID\<close> is
  an array type and, in the Go of this repository (before Go 1.22), \<^verbatim>\<open>v\<close> is one variable
  for the whole loop, which takes the value of each element in turn. \<^verbatim>\<open>v[:]\<close> is a slice
  of that variable, not a copy of its value: every \<^verbatim>\<open>keys[i]\<close> shares the storage of \<^verbatim>\<open>v\<close>.
  When \<^verbatim>\<open>trie.Update\<close> is called the loop is over, \<^verbatim>\<open>v\<close> holds the last element of \<^verbatim>\<open>accs\<close>,
  and that is what each of the keys reads. The values are computed inside the loop, each
  from the value \<^verbatim>\<open>v\<close> has in its turn.
\<close>

definition updateTrie_keys :: "AccountID list \<Rightarrow> bytes list" where
  "updateTrie_keys accs =
     (let v = fold (\<lambda>a v. a) accs emptyAccountID
      in replicate (length accs) v)"

definition updateTrie ::
  "('st, 'trie, 'db) collab \<Rightarrow> 'st BlockState \<Rightarrow> bool \<Rightarrow> ('st, 'trie, 'db) ChainStateDB
     \<Rightarrow> unit result \<times> ('st, 'trie, 'db) ChainStateDB" where
  "updateTrie c bstate undo sdb =
     (let size = int (length (bstate_accounts bstate)) in
      if size \<le> 0 then (Ok (), sdb)
      else
        let accs = updateTrie_accs bstate in
        case collect_vals (map (updateTrie_val c bstate undo) accs) of
          None \<Rightarrow> (Panic, sdb)
        | Some vals \<Rightarrow>
            let keys = updateTrie_keys accs in
            if size > 0 then
              (case trie_Update c (trie sdb) keys vals of
                 (err, t) \<Rightarrow>
                   (case err of None \<Rightarrow> Ok () | Some e \<Rightarrow> Err (External e),
                    sdb\<lparr>trie := t, trie_calls := trie_calls sdb @ [CallUpdate keys vals]\<rparr>))
            else
              (Ok (), sdb\<lparr>trie := trie_Commit c (trie sdb),
                          trie_calls := trie_calls sdb @ [CallCommit]\<rparr>))"

definition revertTrie ::
  "('st, 'trie, 'db) collab \<Rightarrow> 'st BlockState \<Rightarrow> ('st, 'trie, 'db) ChainStateDB
     \<Rightarrow> unit result \<times> ('st, 'trie, 'db) ChainStateDB" where
  "revertTrie c bstate sdb = updateTrie c bstate True sdb"

subsection \<open>Apply and Rollback\<close>

text \<open>The loop \<^verbatim>\<open>for k, v := range bstate.accounts { sdb.accounts[k] = v.State }\<close>.\<close>

definition put_states ::
  "(AccountID \<times> 'st StateEntry) list \<Rightarrow> (AccountID \<rightharpoonup> 'st option) \<Rightarrow> (AccountID \<rightharpoonup> 'st option)" where
  "put_states es m = fold (\<lambda>(k, v) m. m(k \<mapsto> State v)) es m"

text \<open>The loop \<^verbatim>\<open>for k, v := range bs.accounts { sdb.accounts[k] = v.Undo }\<close>.\<close>

definition put_undos ::
  "(AccountID \<times> 'st StateEntry) list \<Rightarrow> (AccountID \<rightharpoonup> 'st option) \<Rightarrow> (AccountID \<rightharpoonup> 'st option)" where
  "put_undos es m = fold (\<lambda>(k, v) m. m(k \<mapsto> Undo v)) es m"

text \<open>\<^verbatim>\<open>err = sdb.saveStateDB(); return err\<close>, the last statement of both operations.\<close>

definition flush_and_return ::
  "('st, 'trie, 'db) collab \<Rightarrow> ('st, 'trie, 'db) ChainStateDB
     \<Rightarrow> unit result \<times> ('st, 'trie, 'db) ChainStateDB" where
  "flush_and_return c sdb =
     (case saveStateDB c (statedb sdb) (accounts sdb) (latest sdb) of
        (err, db) \<Rightarrow>
          (case err of None \<Rightarrow> Ok () | Some e \<Rightarrow> Err (External e), sdb\<lparr>statedb := db\<rparr>))"

text \<open>
  \<^verbatim>\<open>sdb.latest\<close> is a pointer, nil until \<^verbatim>\<open>SetGenesis\<close> or \<^verbatim>\<open>Init\<close> has set it; reading
  \<^verbatim>\<open>sdb.latest.BlockNo\<close> through nil panics. The lock is not modelled.
\<close>

definition Apply ::
  "('st, 'trie, 'db) collab \<Rightarrow> 'st BlockState \<Rightarrow> ('st, 'trie, 'db) ChainStateDB
     \<Rightarrow> unit result \<times> ('st, 'trie, 'db) ChainStateDB" where
  "Apply c bstate sdb =
     (case latest sdb of
        None \<Rightarrow> (Panic, sdb)
      | Some l \<Rightarrow>
          if BlockNo l + 1 \<noteq> BlockNo (info bstate) then
            (Err (ErrApplyInvalidBlockNo (BlockNo l) (BlockNo (info bstate))), sdb)
          else if BlockHash l \<noteq> PrevHash (info bstate) then
            (Err (ErrApplyInvalidPrevBlock (BlockHash l) (PrevHash (info bstate))), sdb)
          else
            let s1 = sdb\<lparr>statedb := saveBlockState c (statedb sdb) bstate\<rparr>;
                s2 = s1\<lparr>accounts := put_states (bstate_accounts bstate) (accounts s1)\<rparr>
            in (case updateTrie c bstate False s2 of
                  (Ok u, s3) \<Rightarrow> flush_and_return c (s3\<lparr>latest := Some (info bstate)\<rparr>)
                | (r, s3) \<Rightarrow> (r, s3)))"

text \<open>
  The loop of \<^verbatim>\<open>Rollback\<close>, with the statement after it (\<open>flush_and_return\<close>) at both
  of its exits, the \<^verbatim>\<open>break\<close> and the loop condition. \<open>target\<close> is read for its number
  and hash only. The result \<open>None\<close> is a loop that does not end.
\<close>

partial_function (option) Rollback_loop ::
  "('st, 'trie, 'db) collab \<Rightarrow> BlockNo \<Rightarrow> BlockInfo \<Rightarrow> ('st, 'trie, 'db) ChainStateDB
     \<Rightarrow> (unit result \<times> ('st, 'trie, 'db) ChainStateDB) option" where
  "Rollback_loop c blockNo target sdb =
     (if BlockNo target \<ge> blockNo then
        (case loadBlockState c (statedb sdb) (BlockHash target) of
           Inl e \<Rightarrow> Some (Err (External e), sdb)
         | Inr bs \<Rightarrow>
             (let s1 = sdb\<lparr>latest := Some (info bs)\<rparr> in
              if BlockNo target = blockNo then Some (flush_and_return c s1)
              else
                (let s2 = s1\<lparr>accounts := put_undos (bstate_accounts bs) (accounts s1)\<rparr>
                 in case revertTrie c bs s2 of
                      (Ok u, s3) \<Rightarrow>
                        Rollback_loop c blockNo
                          \<lparr>BlockNo = BlockNo (info bs) - 1, BlockHash = PrevHash (info bs),
                           PrevHash = emptyBlockID\<rparr> s3
                    | (Err e, s3) \<Rightarrow> Some (Err e, s3)
                    | (Panic, s3) \<Rightarrow> Some (Panic, s3))))
      else Some (flush_and_return c sdb))"

definition Rollback ::
  "('st, 'trie, 'db) collab \<Rightarrow> BlockNo \<Rightarrow> ('st, 'trie, 'db) ChainStateDB
     \<Rightarrow> (unit result \<times> ('st, 'trie, 'db) ChainStateDB) option" where
  "Rollback c blockNo sdb =
     (case latest sdb of
        None \<Rightarrow> Some (Panic, sdb)
      | Some l \<Rightarrow>
          if BlockNo l \<le> blockNo then Some (Err ErrRollbackInvalidBlockNo, sdb)
          else Rollback_loop c blockNo l sdb)"

definition GetHash :: "('st, 'trie, 'db) collab \<Rightarrow> ('st, 'trie, 'db) ChainStateDB \<Rightarrow> bytes" where
  "GetHash c sdb = trie_Root c (trie sdb)"

section \<open>The peer manager and the p2p requests (package p2p)\<close>

subsection \<open>Peers, protocol ids and message orders\<close>

text \<open>\<^verbatim>\<open>peer.ID\<close> is a string type.\<close>

type_synonym peer_ID = string

text \<open>
  Modelled from the spec: \<^verbatim>\<open>types.PeerState\<close> is declared in the generated protobuf
  code, which is missing here. The spec gives the states of a peer as CONNECTING,
  HANDSHAKING, RUNNING and STOPPING.
\<close>

datatype PeerState = CONNECTING | HANDSHAKING | RUNNING | STOPPING

text \<open>
  Modelled from the spec: the protocol id constants are used in \<^verbatim>\<open>actorwork.go\<close> and
  by the peer manager; their declarations are missing here. The spec's message
  catalogue gives them as short strings.
\<close>

type_synonym SubProtocol = string

definition getMissingRequest :: SubProtocol where
  "getMissingRequest = ''getMissing/req''"

definition getTXsRequest :: SubProtocol where
  "getTXsRequest = ''getTXs/req''"

definition newBlockNotice :: SubProtocol where
  "newBlockNotice = ''newBlock/notice''"

definition newTxNotice :: SubProtocol where
  "newTxNotice = ''newTX/notice''"

text \<open>The protobuf bodies the operations build; the empty envelope is left out.\<close>

datatype pb_body =
    NewBlockNotice bytes "64 word"
  | NewTransactionsNotice "bytes list"
  | GetMissingRequest "bytes list" bytes
  | GetTransactionsRequest "bytes list"

text \<open>
  Modelled from the spec: the code of \<^verbatim>\<open>newPbMsgRequestOrder\<close> and of
  \<^verbatim>\<open>newPbMsgBroadcastOrder\<close> is missing here. An order records the arguments it was
  built from: a request may expect a response, a broadcast (a notice) never does.
\<close>

record msgOrder =
  expecteResponse :: bool
  gossip :: bool
  needSign :: bool
  protocolID :: SubProtocol
  message :: pb_body

definition newPbMsgRequestOrder :: "bool \<Rightarrow> bool \<Rightarrow> SubProtocol \<Rightarrow> pb_body \<Rightarrow> msgOrder" where
  "newPbMsgRequestOrder expecteResp sign proto msg =
     \<lparr>expecteResponse = expecteResp, gossip = False, needSign = sign,
      protocolID = proto, message = msg\<rparr>"

definition newPbMsgBroadcastOrder :: "bool \<Rightarrow> SubProtocol \<Rightarrow> pb_body \<Rightarrow> msgOrder" where
  "newPbMsgBroadcastOrder sign proto msg =
     \<lparr>expecteResponse = False, gossip = True, needSign = sign,
      protocolID = proto, message = msg\<rparr>"

record RemotePeer =
  meta_ID :: peer_ID
  state :: PeerState

text \<open>
  A bounded LRU cache as \<^verbatim>\<open>hashicorp/golang-lru\<close> gives it: the most recent entry
  first. \<^verbatim>\<open>ContainsOrAdd\<close> answers whether the key is present without touching the
  order; if it is absent it adds the entry and evicts the oldest one when the cache is
  over its size. It returns \<^verbatim>\<open>(ok, evicted)\<close> and the cache.
\<close>

record ('k, 'v) lru =
  lru_size :: nat
  lru_items :: "('k \<times> 'v) list"

definition lru_Contains :: "('k, 'v) lru \<Rightarrow> 'k \<Rightarrow> bool" where
  "lru_Contains cache k = (map_of (lru_items cache) k \<noteq> None)"

definition lru_ContainsOrAdd :: "('k, 'v) lru \<Rightarrow> 'k \<Rightarrow> 'v \<Rightarrow> bool \<times> bool \<times> ('k, 'v) lru" where
  "lru_ContainsOrAdd cache k v =
     (if lru_Contains cache k then (True, False, cache)
      else
        let items = (k, v) # lru_items cache;
            evict = length items > lru_size cache
        in (False, evict,
            cache\<lparr>lru_items := (if evict then butlast items else items)\<rparr>))"

definition DefaultGlobalInvCacheSize :: nat where
  "DefaultGlobalInvCacheSize = 100"

text \<open>
  \<^verbatim>\<open>remotePeers\<close> is the map of registered peers, \<^verbatim>\<open>peerCache\<close> the slice that
  \<^verbatim>\<open>GetPeers\<close> returns (a slice of pointers, so an element may be nil), \<^verbatim>\<open>invCache\<close>
  the cache of block notices, from the base64 text of a hash to the hash.
\<close>

record peerManager =
  remotePeers :: "peer_ID \<rightharpoonup> RemotePeer"
  peerCache :: "RemotePeer option list"
  invCache :: "(string, bytes) lru"

definition GetPeer :: "peerManager \<Rightarrow> peer_ID \<Rightarrow> RemotePeer option" where
  "GetPeer ps ID = remotePeers ps ID"

definition GetPeers :: "peerManager \<Rightarrow> RemotePeer option list" where
  "GetPeers ps = peerCache ps"

subsection \<open>Requests and notices (actorwork.go)\<close>

text \<open>
  Modelled from the spec: the code of \<^verbatim>\<open>RemotePeer.sendMessage\<close> is missing here; by
  the spec it puts the order on the send queue of the peer. An operation returns its
  result and the \<^verbatim>\<open>sendMessage\<close> calls it made, in order, each with the peer it was
  made on.
\<close>

type_synonym sends = "(RemotePeer \<times> msgOrder) list"

text \<open>
  \<^verbatim>\<open>NotifyNewBlock\<close>: the block of the message is taken to be non-nil, and is given by
  its hash.
\<close>

record NotifyNewBlock_msg =
  Block_Hash :: bytes
  nb_BlockNo :: "64 word"

fun NotifyNewBlock_loop :: "NotifyNewBlock_msg \<Rightarrow> RemotePeer option list \<Rightarrow> sends" where
  "NotifyNewBlock_loop newBlock [] = []"
| "NotifyNewBlock_loop newBlock (None # neighbors) = NotifyNewBlock_loop newBlock neighbors"
| "NotifyNewBlock_loop newBlock (Some neighbor # neighbors) =
     (let req = NewBlockNotice (Block_Hash newBlock) (nb_BlockNo newBlock);
          msg = newPbMsgBroadcastOrder False newBlockNotice req
      in (if state neighbor = RUNNING then [(neighbor, msg)] else [])
           @ NotifyNewBlock_loop newBlock neighbors)"

definition NotifyNewBlock :: "peerManager \<Rightarrow> NotifyNewBlock_msg \<Rightarrow> bool result \<times> sends" where
  "NotifyNewBlock pm newBlock = (Ok True, NotifyNewBlock_loop newBlock (GetPeers pm))"

text \<open>
  \<^verbatim>\<open>GetMissingBlocks\<close>: \<^verbatim>\<open>bhashes\<close> is a copy of \<^verbatim>\<open>hashes\<close>; the slice expression
  \<^verbatim>\<open>bhashes[1:]\<close> and the index \<^verbatim>\<open>bhashes[0]\<close> panic on an empty slice.
\<close>

definition GetMissingBlocks ::
  "peerManager \<Rightarrow> peer_ID \<Rightarrow> bytes list \<Rightarrow> bool result \<times> sends" where
  "GetMissingBlocks pm peerID hashes =
     (case GetPeer pm peerID of
        None \<Rightarrow> (Ok False, [])
      | Some remotePeer \<Rightarrow>
          (let bhashes = fold (\<lambda>a acc. acc @ [a]) hashes [] in
           case bhashes of
             [] \<Rightarrow> (Panic, [])
           | stophash # rest \<Rightarrow>
               (let req = GetMissingRequest rest stophash
                in (Ok True,
                    [(remotePeer, newPbMsgRequestOrder False True getMissingRequest req)]))))"

text \<open>
  \<^verbatim>\<open>GetTXs\<close>: an empty list of hashes and an empty hash are refused before anything
  is sent.
\<close>

definition GetTXs :: "peerManager \<Rightarrow> peer_ID \<Rightarrow> bytes list \<Rightarrow> bool result \<times> sends" where
  "GetTXs pm peerID txHashes =
     (case GetPeer pm peerID of
        None \<Rightarrow> (Ok False, [])
      | Some remotePeer \<Rightarrow>
          if length txHashes = 0 then (Ok False, [])
          else if \<exists>hash \<in> set txHashes. length hash = 0 then (Ok False, [])
          else
            (let hashes = txHashes;
                 req = GetTransactionsRequest hashes
             in (Ok True, [(remotePeer, newPbMsgRequestOrder True True getTXsRequest req)])))"

text \<open>
  \<^verbatim>\<open>NotifyNewTX\<close>: the transactions of the message are taken to be non-nil. There is
  no nil check on the peer here: \<^verbatim>\<open>sendMessage\<close> on a nil peer is a nil dereference.
\<close>

record Tx =
  tx_Hash :: bytes

fun NotifyNewTX_loop :: "bytes list \<Rightarrow> RemotePeer option list \<Rightarrow> bool result \<times> sends" where
  "NotifyNewTX_loop hashes [] = (Ok True, [])"
| "NotifyNewTX_loop hashes (None # peers) = (Panic, [])"
| "NotifyNewTX_loop hashes (Some peer # peers) =
     (let req = NewTransactionsNotice hashes;
          sent = (peer, newPbMsgBroadcastOrder False newBlockNotice req)
      in case NotifyNewTX_loop hashes peers of (r, later) \<Rightarrow> (r, sent # later))"

definition NotifyNewTX :: "peerManager \<Rightarrow> Tx list \<Rightarrow> bool result \<times> sends" where
  "NotifyNewTX pm newTXs_Txs =
     (let hashes = map tx_Hash newTXs_Txs
      in NotifyNewTX_loop hashes (GetPeers pm))"

subsection \<open>Authentication of messages\<close>

text \<open>
  The functions of \<^verbatim>\<open>go-libp2p-crypto\<close>, \<^verbatim>\<open>go-libp2p-peer\<close> and \<^verbatim>\<open>protobuf\<close> that the
  peer manager calls are parameters: each returns its error or its value.
\<close>

record ('key, 'msg) crypto =
  UnmarshalPublicKey :: "bytes \<Rightarrow> string + 'key"
  IDFromPublicKey :: "'key \<Rightarrow> string + peer_ID"
  key_Verify :: "'key \<Rightarrow> bytes \<Rightarrow> bytes \<Rightarrow> string + bool"
  proto_Marshal :: "'msg \<Rightarrow> bytes \<Rightarrow> string + bytes"
  IDB58Decode :: "string \<Rightarrow> string + peer_ID"

record MessageData =
  Sign :: bytes
  PeerID :: string
  NodePubKey :: bytes

definition VerifyData ::
  "('key, 'msg) crypto \<Rightarrow> bytes \<Rightarrow> bytes \<Rightarrow> peer_ID \<Rightarrow> bytes \<Rightarrow> bool" where
  "VerifyData c data signature peerID pubKeyData =
     (case UnmarshalPublicKey c pubKeyData of
        Inl err \<Rightarrow> False
      | Inr key \<Rightarrow>
          (case IDFromPublicKey c key of
             Inl err \<Rightarrow> False
           | Inr idFromKey \<Rightarrow>
               if idFromKey \<noteq> peerID then False
               else (case key_Verify c key data signature of
                       Inl err \<Rightarrow> False
                     | Inr res \<Rightarrow> res)))"

text \<open>
  \<^verbatim>\<open>AuthenticateMessage\<close> starts with \<^verbatim>\<open>return true\<close> under the comment
  \<^verbatim>\<open>for Test only\<close>; the statements after it are never run.
\<close>

definition AuthenticateMessage :: "('key, 'msg) crypto \<Rightarrow> 'msg \<Rightarrow> MessageData \<Rightarrow> bool" where
  "AuthenticateMessage c msg data = True"

text \<open>
  The statements of \<^verbatim>\<open>AuthenticateMessage\<close> after its first \<^verbatim>\<open>return\<close>: the message
  is marshalled with the signature of its envelope set to the empty string (the
  marshaller is given that signature field), and the result is verified.
\<close>

definition AuthenticateMessage_unreachable ::
  "('key, 'msg) crypto \<Rightarrow> 'msg \<Rightarrow> MessageData \<Rightarrow> bool" where
  "AuthenticateMessage_unreachable c msg data =
     (let sign = Sign data in
      case proto_Marshal c msg [] of
        Inl err \<Rightarrow> False
      | Inr bin \<Rightarrow>
          (case IDB58Decode c (PeerID data) of
             Inl err \<Rightarrow> False
           | Inr peerID \<Rightarrow> VerifyData c bin sign peerID (NodePubKey data)))"

subsection \<open>Block notices\<close>

text \<open>
  The requests \<^verbatim>\<open>HandleNewBlockNotice\<close> makes through the actor service: a
  \<^verbatim>\<open>CallRequest\<close> of \<^verbatim>\<open>message.GetBlock\<close> to the chain service, and a \<^verbatim>\<open>SendRequest\<close>
  of \<^verbatim>\<open>message.GetBlockInfos\<close> to the p2p service.
\<close>

datatype actor_request =
    CallRequest_ChainSvc_GetBlock bytes
  | SendRequest_P2PSvc_GetBlockInfos peer_ID "bytes list"

text \<open>
  What \<^verbatim>\<open>CallRequest\<close> gives back: an error, a nil response with no error, a response
  of another type than \<^verbatim>\<open>message.GetBlockRsp\<close>, or a \<^verbatim>\<open>message.GetBlockRsp\<close> with its
  \<^verbatim>\<open>Err\<close> field.
\<close>

datatype call_response =
    CallError string
  | NilResponse
  | OtherResponse
  | GetBlockRsp "string option"

text \<open>
  \<open>chainSvc\<close> is the answer of the chain service to the \<^verbatim>\<open>GetBlock\<close> request, should
  it be made. The notice \<^verbatim>\<open>data\<close> is taken to be non-nil and is given by its
  \<^verbatim>\<open>BlockHash\<close>. When the response is not a \<^verbatim>\<open>message.GetBlockRsp\<close> the log statement
  evaluates \<^verbatim>\<open>reflect.TypeOf(rawResp).Name()\<close>, which panics on a nil response. The result
  is the outcome, the peer manager after the call and the requests made, in order.
\<close>

definition HandleNewBlockNotice ::
  "(bytes \<Rightarrow> call_response) \<Rightarrow> peer_ID \<Rightarrow> string \<Rightarrow> bytes \<Rightarrow> peerManager
     \<Rightarrow> unit result \<times> peerManager \<times> actor_request list" where
  "HandleNewBlockNotice chainSvc peerID b64hash data_BlockHash ps =
     (case lru_ContainsOrAdd (invCache ps) b64hash data_BlockHash of
        (ok, evicted, cache) \<Rightarrow>
          (let ps' = ps\<lparr>invCache := cache\<rparr> in
           if ok then (Ok (), ps', [])
           else
             (let call = CallRequest_ChainSvc_GetBlock data_BlockHash in
              case chainSvc data_BlockHash of
                CallError err \<Rightarrow> (Ok (), ps', [call])
              | NilResponse \<Rightarrow> (Panic, ps', [call])
              | OtherResponse \<Rightarrow> (Ok (), ps', [call])
              | GetBlockRsp rsp_Err \<Rightarrow>
                  (if rsp_Err \<noteq> None then
                     (Ok (), ps',
                      [call, SendRequest_P2PSvc_GetBlockInfos peerID [data_BlockHash]])
                   else (Ok (), ps', [call])))))"

section \<open>Notions used in the statements\<close>

subsection \<open>Errors and collaborators that do not fail\<close>

definition is_mismatch :: "error \<Rightarrow> bool" where
  "is_mismatch e =
     (case e of
        ErrApplyInvalidBlockNo a b \<Rightarrow> True
      | ErrApplyInvalidPrevBlock a b \<Rightarrow> True
      | _ \<Rightarrow> False)"



subsection \<open>The undo pass of a block and the chain of block states in the store\<close>









subsection \<open>A reference instance of the collaborators\<close>

text \<open>
  Modelled from the spec: the code of the account state, of the trie and of the
  key-value store is missing here. In this instance an account state is its balance, empty
  when zero;
  its hash is a tag byte and the low byte of the balance, and the hash of a nil state
  is a byte of its own. The trie is the list of its leaves: \<^verbatim>\<open>Update\<close> replaces the
  values at the given keys, \<^verbatim>\<open>Commit\<close> changes nothing that can be observed, and the
  root is the leaves written one after the other. The store keeps each block state
  under its block hash and never fails.
\<close>

fun leaf_put :: "bytes \<Rightarrow> bytes \<Rightarrow> (bytes \<times> bytes) list \<Rightarrow> (bytes \<times> bytes) list" where
  "leaf_put k v [] = [(k, v)]"
| "leaf_put k v ((k', v') # t) =
     (if k = k' then (k, v) # t else (k', v') # leaf_put k v t)"

definition ref_hash :: "64 word option \<Rightarrow> bytes option" where
  "ref_hash st = (case st of None \<Rightarrow> Some [0] | Some b \<Rightarrow> Some [1, ucast b])"

type_synonym ref_trie = "(bytes \<times> bytes) list"
type_synonym ref_db = "BlockID \<rightharpoonup> 64 word BlockState"

definition ref_collab :: "(64 word, ref_trie, ref_db) collab" where
  "ref_collab =
     \<lparr>st_NewState = 0,
      st_IsEmpty = (\<lambda>b. b = 0),
      st_GetHash = ref_hash,
      trie_Update = (\<lambda>t ks vs. (None, fold (\<lambda>(k, v). leaf_put k v) (zip ks vs) t)),
      trie_Commit = (\<lambda>t. t),
      trie_Root = (\<lambda>t. concat (map (\<lambda>(k, v). k @ v) t)),
      saveBlockState = (\<lambda>db bs. db(BlockHash (info bs) \<mapsto> bs)),
      loadBlockState =
        (\<lambda>db h. case db h of None \<Rightarrow> Inl ''block state not found'' | Some bs \<Rightarrow> Inr bs),
      saveStateDB = (\<lambda>db a l. (None, db))\<rparr>"

text \<open>The same collaborators with a trie whose \<^verbatim>\<open>Update\<close> fails on a missing node.\<close>

definition trie_down_collab :: "(64 word, ref_trie, ref_db) collab" where
  "trie_down_collab =
     ref_collab\<lparr>trie_Update := (\<lambda>t ks vs. (Some ''trie node unavailable'', t))\<rparr>"

text \<open>The same collaborators with a \<^verbatim>\<open>GetHash\<close> that reads through a nil receiver.\<close>

definition nil_strict_collab :: "(64 word, ref_trie, ref_db) collab" where
  "nil_strict_collab =
     ref_collab\<lparr>st_GetHash := (\<lambda>st. case st of None \<Rightarrow> None | Some b \<Rightarrow> ref_hash (Some b))\<rparr>"

subsection \<open>An engine at genesis and two blocks\<close>

definition g_hash :: BlockID where
  "g_hash = replicate 32 0xAA"

definition h1 :: BlockID where
  "h1 = replicate 32 0xB1"

definition h2 :: BlockID where
  "h2 = replicate 32 0xB2"

definition A1 :: AccountID where
  "A1 = replicate 32 1"

definition A2 :: AccountID where
  "A2 = replicate 32 2"

definition genesis_bs :: "64 word BlockState" where
  "genesis_bs = NewBlockState 0 g_hash emptyBlockID"

text \<open>
  The engine after \<^verbatim>\<open>SetGenesis\<close>: the empty block state of the genesis block is in the
  store, no account has been read yet.
\<close>

definition genesis_sdb :: "(64 word, ref_trie, ref_db) ChainStateDB" where
  "genesis_sdb =
     \<lparr>accounts = Map.empty,
      trie = [],
      latest = Some \<lparr>BlockNo = 0, BlockHash = g_hash, PrevHash = emptyBlockID\<rparr>,
      statedb = [g_hash \<mapsto> genesis_bs],
      trie_calls = []\<rparr>"

text \<open>
  Block 1 creates two accounts: \<^verbatim>\<open>A2\<close> first, then \<^verbatim>\<open>A1\<close>, each with the empty state
  as its state before the block.
\<close>

definition bs1 :: "64 word BlockState" where
  "bs1 =
     PutAccount ref_collab A1 (Some 0) (Some 100)
       (PutAccount ref_collab A2 (Some 0) (Some 50) (NewBlockState 1 h1 g_hash))"

text \<open>Block 2 takes the balance of \<^verbatim>\<open>A1\<close> from 100 to 70.\<close>

definition bs2 :: "64 word BlockState" where
  "bs2 = PutAccount ref_collab A1 (Some 100) (Some 70) (NewBlockState 2 h2 h1)"

text \<open>The engine after block 1, and after blocks 1 and 2.\<close>

definition sdb1 :: "(64 word, ref_trie, ref_db) ChainStateDB" where
  "sdb1 = snd (Apply ref_collab bs1 genesis_sdb)"


text \<open>A block state of height 2 on top of the genesis block.\<close>

definition bs_height2 :: "64 word BlockState" where
  "bs_height2 = PutAccount ref_collab A1 (Some 0) (Some 100) (NewBlockState 2 h1 g_hash)"

text \<open>Block 1 again, its account map visited in the other order.\<close>

definition bs1_reordered :: "64 word BlockState" where
  "bs1_reordered = bs1\<lparr>bstate_accounts := rev (bstate_accounts bs1)\<rparr>"

text \<open>
  The engine at genesis after the account \<^verbatim>\<open>A1\<close> has been read once, which creates its
  empty state; a block that gives \<^verbatim>\<open>A1\<close> its first balance, built from that read; and
  the engine after that block.
\<close>

definition lazy_sdb :: "(64 word, ref_trie, ref_db) ChainStateDB" where
  "lazy_sdb = snd (GetAccountStateClone ref_collab A1 genesis_sdb)"

definition bs_create :: "64 word BlockState" where
  "bs_create = PutAccount ref_collab A1 (Some 0) (Some 100) (NewBlockState 1 h1 g_hash)"

definition created_sdb :: "(64 word, ref_trie, ref_db) ChainStateDB" where
  "created_sdb = snd (Apply ref_collab bs_create lazy_sdb)"

subsection \<open>Sequences of block notices\<close>

text \<open>
  Notices handled one after the other; each comes with the answer of the chain
  service, its sender, the base64 text of its hash and the hash. The peer manager is
  carried on from each call as that call leaves it, whatever its outcome.
\<close>

fun handle_notices ::
  "((bytes \<Rightarrow> call_response) \<times> peer_ID \<times> string \<times> bytes) list \<Rightarrow> peerManager
     \<Rightarrow> peerManager" where
  "handle_notices [] ps = ps"
| "handle_notices ((chainSvc, peerID, b64hash, h) # ns) ps =
     handle_notices ns (fst (snd (HandleNewBlockNotice chainSvc peerID b64hash h ps)))"

text \<open>The number of entries of the cache that are more recent than the key.\<close>

definition lru_age :: "('k, 'v) lru \<Rightarrow> 'k \<Rightarrow> nat" where
  "lru_age cache k = length (takeWhile (\<lambda>e. fst e \<noteq> k) (lru_items cache))"

fun is_GetBlock :: "actor_request \<Rightarrow> bool" where
  "is_GetBlock (CallRequest_ChainSvc_GetBlock h) = True"
| "is_GetBlock (SendRequest_P2PSvc_GetBlockInfos p hs) = False"

subsection \<open>A peer manager with two peers\<close>

definition peer_A :: RemotePeer where
  "peer_A = \<lparr>meta_ID = ''peer-A'', state = RUNNING\<rparr>"

definition peer_B :: RemotePeer where
  "peer_B = \<lparr>meta_ID = ''peer-B'', state = HANDSHAKING\<rparr>"

definition ex_pm :: peerManager where
  "ex_pm =
     \<lparr>remotePeers = [''peer-A'' \<mapsto> peer_A, ''peer-B'' \<mapsto> peer_B],
      peerCache = [Some peer_A, Some peer_B],
      invCache = \<lparr>lru_size = DefaultGlobalInvCacheSize, lru_items = []\<rparr>\<rparr>"

definition ex_txs :: "Tx list" where
  "ex_txs = [\<lparr>tx_Hash = [0x11]\<rparr>, \<lparr>tx_Hash = [0x22]\<rparr>]"

definition ex_newBlock :: NotifyNewBlock_msg where
  "ex_newBlock = \<lparr>Block_Hash = [0xB1], nb_BlockNo = 1\<rparr>"

definition tx_notice :: msgOrder where
  "tx_notice = newPbMsgBroadcastOrder False newBlockNotice (NewTransactionsNotice [[0x11], [0x22]])"

text \<open>A chain service that has no block, and one notice of another block.\<close>

definition not_found :: "bytes \<Rightarrow> call_response" where
  "not_found h = GetBlockRsp (Some ''block not found'')"

definition ex_between :: "((bytes \<Rightarrow> call_response) \<times> peer_ID \<times> string \<times> bytes) list" where
  "ex_between = [(not_found, ''peer-B'', ''sg=='', [0xB2])]"

text \<open>
  Modelled from the spec: the cryptographic functions belong to libraries. In this
  instance a public key is its bytes, the signature of some data under a key is the key
  followed by the data, and a message is marshalled to its bytes followed by the
  signature field of its envelope.
\<close>

definition ref_crypto :: "(bytes, bytes) crypto" where
  "ref_crypto =
     \<lparr>UnmarshalPublicKey = (\<lambda>raw. if raw = [] then Inl ''malformed key'' else Inr raw),
      IDFromPublicKey = (\<lambda>key. Inr (if key = [0x0A] then ''peer-A'' else ''peer-other'')),
      key_Verify = (\<lambda>key data sig. Inr (sig = key @ data)),
      proto_Marshal = (\<lambda>msg sign. Inr (msg @ sign)),
      IDB58Decode = (\<lambda>s. Inr s)\<rparr>"

definition forged :: MessageData where
  "forged = \<lparr>Sign = [0xFF], PeerID = ''peer-A'', NodePubKey = [0x0A]\<rparr>"

definition signed :: MessageData where
  "signed = \<lparr>Sign = [0x0A, 0x07], PeerID = ''peer-A'', NodePubKey = [0x0A]\<rparr>"

section \<open>Properties of the state engine\<close>

subsection \<open>What the trie update leaves alone\<close>


lemma updateTrie_nonempty:
  assumes "bstate_accounts b \<noteq> []"
    and "collect_vals (map (updateTrie_val c b u) (updateTrie_accs b)) = Some vals"
  shows "updateTrie c b u s =
           (case fst (trie_Update c (trie s) (updateTrie_keys (updateTrie_accs b)) vals) of
              None \<Rightarrow> Ok () | Some e \<Rightarrow> Err (External e),
            s\<lparr>trie := snd (trie_Update c (trie s) (updateTrie_keys (updateTrie_accs b)) vals),
              trie_calls :=
                trie_calls s @ [CallUpdate (updateTrie_keys (updateTrie_accs b)) vals]\<rparr>)"
  using assms by (simp add: updateTrie_def Let_def split: prod.splits)

lemma updateTrie_panic:
  assumes "bstate_accounts b \<noteq> []"
    and "collect_vals (map (updateTrie_val c b u) (updateTrie_accs b)) = None"
  shows "updateTrie c b u s = (Panic, s)"
  using assms by (simp add: updateTrie_def Let_def)

lemma accounts_updateTrie: "accounts (snd (updateTrie c b u s)) = accounts s"
  by (simp add: updateTrie_def Let_def split: option.splits prod.splits)

lemma latest_updateTrie: "latest (snd (updateTrie c b u s)) = latest s"
  by (simp add: updateTrie_def Let_def split: option.splits prod.splits)


lemma updateTrie_not_mismatch:
  "updateTrie c b u s = (Err e, s') \<Longrightarrow> \<not> is_mismatch e"
  by (auto simp: updateTrie_def Let_def is_mismatch_def
      split: option.splits prod.splits if_splits)

lemma flush_not_mismatch:
  "flush_and_return c s = (Err e, s') \<Longrightarrow> \<not> is_mismatch e"
  by (auto simp: flush_and_return_def is_mismatch_def split: option.splits prod.splits)

lemma accounts_flush: "accounts (snd (flush_and_return c s)) = accounts s"
  by (simp add: flush_and_return_def split: prod.splits)

lemma latest_flush: "latest (snd (flush_and_return c s)) = latest s"
  by (simp add: flush_and_return_def split: prod.splits)

lemma trie_calls_flush: "trie_calls (snd (flush_and_return c s)) = trie_calls s"
  by (simp add: flush_and_return_def split: prod.splits)

lemma Apply_trie_calls:
  assumes "fst (Apply c bs sdb) = Ok ()"
  shows "trie_calls (snd (Apply c bs sdb)) =
           trie_calls (snd (updateTrie c bs False
             (sdb\<lparr>statedb := saveBlockState c (statedb sdb) bs,
                   accounts := put_states (bstate_accounts bs) (accounts sdb)\<rparr>)))"
proof (cases "latest sdb")
  case None
  with assms show ?thesis by (simp add: Apply_def)
next
  case (Some l)
  let ?s2 = "sdb\<lparr>statedb := saveBlockState c (statedb sdb) bs,
                   accounts := put_states (bstate_accounts bs) (accounts sdb)\<rparr>"
  obtain r s3 where u: "updateTrie c bs False ?s2 = (r, s3)"
    by (cases "updateTrie c bs False ?s2")
  from assms Some have g: "BlockNo l + 1 = BlockNo (info bs)" "BlockHash l = PrevHash (info bs)"
    by (auto simp: Apply_def split: if_splits)
  show ?thesis
  proof (cases r)
    case (Ok x)
    with Some g u show ?thesis
      by (simp add: Apply_def Let_def trie_calls_flush)
  next
    case (Err e)
    with Some g u assms show ?thesis by (simp add: Apply_def Let_def)
  next
    case Panic
    with Some g u assms show ?thesis by (simp add: Apply_def Let_def)
  qed
qed

subsection \<open>The example blocks\<close>

lemma A1_neq_A2: "A1 \<noteq> A2" "A2 \<noteq> A1"
  by (simp_all add: A1_def A2_def)

lemma hashes_distinct: "g_hash \<noteq> h1" "h1 \<noteq> g_hash" "g_hash \<noteq> h2" "h2 \<noteq> g_hash" "h1 \<noteq> h2" "h2 \<noteq> h1"
  by (simp_all add: g_hash_def h1_def h2_def)

lemma A1_before_A2: "bytes_Compare A1 A2 = - 1" "bytes_Compare A2 A1 = 1"
  by (simp_all add: A1_def A2_def numeral_eq_Suc)

lemma bs1_eq:
  "bs1 = \<lparr>info = \<lparr>BlockNo = 1, BlockHash = h1, PrevHash = g_hash\<rparr>,
          bstate_accounts = [(A2, \<lparr>State = Some 50, Undo = None\<rparr>),
                             (A1, \<lparr>State = Some 100, Undo = None\<rparr>)]\<rparr>"
  by (simp add: bs1_def PutAccount_def NewBlockState_def NewStateEntry_def ref_collab_def
      A1_neq_A2)

lemma bs2_eq:
  "bs2 = \<lparr>info = \<lparr>BlockNo = 2, BlockHash = h2, PrevHash = h1\<rparr>,
          bstate_accounts = [(A1, \<lparr>State = Some 70, Undo = Some 100\<rparr>)]\<rparr>"
  by (simp add: bs2_def PutAccount_def NewBlockState_def NewStateEntry_def ref_collab_def)

lemma bs_height2_eq:
  "bs_height2 = \<lparr>info = \<lparr>BlockNo = 2, BlockHash = h1, PrevHash = g_hash\<rparr>,
                 bstate_accounts = [(A1, \<lparr>State = Some 100, Undo = None\<rparr>)]\<rparr>"
  by (simp add: bs_height2_def PutAccount_def NewBlockState_def NewStateEntry_def
      ref_collab_def)

subsection \<open>Errors of Apply\<close>

text \<open>
  C1, as the code has it: when \<^verbatim>\<open>Apply\<close> returns the height-mismatch or the
  prev-hash-mismatch error, the engine is exactly as it was before the call. When it
  returns any other error (one surfaced from the trie update or from the flush of the
  metadata), the account map already holds the post states of the block: nothing is
  undone.
\<close>

theorem Apply_error_state:
  assumes "Apply c bs sdb = (Err e, sdb')"
  shows "(is_mismatch e \<longrightarrow> sdb' = sdb) \<and>
         (\<not> is_mismatch e \<longrightarrow>
            accounts sdb' = put_states (bstate_accounts bs) (accounts sdb))"
proof (cases "latest sdb")
  case None
  with assms show ?thesis by (simp add: Apply_def)
next
  case (Some l)
  show ?thesis
  proof (cases "BlockNo l + 1 \<noteq> BlockNo (info bs) \<or> BlockHash l \<noteq> PrevHash (info bs)")
    case True
    with assms Some show ?thesis
      by (auto simp: Apply_def is_mismatch_def split: if_splits)
  next
    case False
    define s2 where
      "s2 = sdb\<lparr>statedb := saveBlockState c (statedb sdb) bs,
                accounts := put_states (bstate_accounts bs) (accounts sdb)\<rparr>"
    obtain r s3 where u: "updateTrie c bs False s2 = (r, s3)"
      by (cases "updateTrie c bs False s2")
    have a3: "accounts s3 = put_states (bstate_accounts bs) (accounts sdb)"
      using accounts_updateTrie [of c bs False s2] u by (simp add: s2_def)
    show ?thesis
    proof (cases r)
      case (Ok x)
      with assms Some False u
      have f: "flush_and_return c (s3\<lparr>latest := Some (info bs)\<rparr>) = (Err e, sdb')"
        by (simp add: Apply_def Let_def s2_def)
      from flush_not_mismatch [OF f] accounts_flush [of c "s3\<lparr>latest := Some (info bs)\<rparr>"] f a3
      show ?thesis by simp
    next
      case (Err x)
      with assms Some False u have "x = e" "s3 = sdb'"
        by (simp_all add: Apply_def Let_def s2_def)
      with updateTrie_not_mismatch u Err a3 show ?thesis by blast
    next
      case Panic
      with assms Some False u show ?thesis by (simp add: Apply_def Let_def s2_def)
    qed
  qed
qed

lemma Apply_height2_at_genesis:
  "Apply ref_collab bs_height2 genesis_sdb = (Err (ErrApplyInvalidBlockNo 0 2), genesis_sdb)"
  by (simp add: Apply_def bs_height2_eq genesis_sdb_def)

theorem Apply_error_state_witness:
  "Apply ref_collab bs_height2 genesis_sdb = (Err (ErrApplyInvalidBlockNo 0 2), genesis_sdb) \<and>
   is_mismatch (ErrApplyInvalidBlockNo 0 2) \<and>
   GetHash ref_collab (snd (Apply ref_collab bs_height2 genesis_sdb)) = GetHash ref_collab genesis_sdb"
  using Apply_error_state [OF Apply_height2_at_genesis]
  by (simp add: Apply_height2_at_genesis is_mismatch_def)

text \<open>
  C1 as it is stated fails: with a trie whose update fails, \<^verbatim>\<open>Apply\<close> of block 1 on
  the engine at genesis returns the error of the trie, and the account \<^verbatim>\<open>A1\<close>, absent
  before the call, holds its post state after it.
\<close>

theorem Apply_trie_error_keeps_post_states:
  "fst (Apply trie_down_collab bs1 genesis_sdb) = Err (External ''trie node unavailable'') \<and>
   accounts (snd (Apply trie_down_collab bs1 genesis_sdb)) A1 = Some (Some 100) \<and>
   accounts genesis_sdb A1 = None"
  by (simp add: Apply_def bs1_eq genesis_sdb_def trie_down_collab_def ref_collab_def
      updateTrie_def updateTrie_accs_def updateTrie_keys_def updateTrie_val_def
      put_states_def ref_hash_def Let_def A1_neq_A2 A1_before_A2)

subsection \<open>The sorted account ids and the keys of a trie update\<close>

lemma bytes_Compare_less: "(bytes_Compare a b = - 1) = (a < b)"
  by (induction a b rule: bytes_Compare.induct) auto

lemma set_insert_less: "set (insert_less lt x ys) = insert x (set ys)"
  by (induction ys) auto

lemma set_sort_Slice: "set (sort_Slice lt xs) = set xs"
  by (induction xs) (auto simp: set_insert_less)

lemma distinct_insert_less: "distinct (insert_less lt x ys) = (x \<notin> set ys \<and> distinct ys)"
  by (induction ys) (auto simp: set_insert_less)

lemma distinct_sort_Slice: "distinct (sort_Slice lt xs) = distinct xs"
  by (induction xs) (auto simp: distinct_insert_less set_sort_Slice)

lemma sorted_insert_less:
  "sorted ys \<Longrightarrow> sorted (insert_less (<) (x::'a::linorder) ys)"
  by (induction ys) (auto simp: set_insert_less)

lemma sorted_sort_Slice: "sorted (sort_Slice (<) (xs::'a::linorder list))"
  by (induction xs) (auto simp: sorted_insert_less)

lemma updateTrie_accs_less:
  "updateTrie_accs bs = sort_Slice (<) (map fst (bstate_accounts bs))"
  by (simp add: updateTrie_accs_def bytes_Compare_less)

lemma updateTrie_accs_strict:
  assumes "distinct (map fst (bstate_accounts bs))"
  shows "sorted_wrt (\<lambda>a b. bytes_Compare a b = - 1) (updateTrie_accs bs)"
proof -
  have "sorted_wrt (<) (updateTrie_accs bs)"
    using assms by (simp add: strict_sorted_iff updateTrie_accs_less sorted_sort_Slice distinct_sort_Slice)
  then show ?thesis by (simp add: bytes_Compare_less)
qed

lemma updateTrie_accs_same_map:
  assumes "distinct (map fst (bstate_accounts bs))" "distinct (map fst (bstate_accounts bs'))"
    and "map_of (bstate_accounts bs') = map_of (bstate_accounts bs)"
  shows "updateTrie_accs bs' = updateTrie_accs bs"
proof -
  have "set (map fst (bstate_accounts bs')) = set (map fst (bstate_accounts bs))"
    using assms(3) by (metis dom_map_of_conv_image_fst set_map)
  then show ?thesis
    using assms(1,2)
    by (intro sorted_distinct_set_unique)
       (simp_all add: updateTrie_accs_less sorted_sort_Slice distinct_sort_Slice set_sort_Slice)
qed


lemma updateTrie_keys_last:
  "accs \<noteq> [] \<Longrightarrow> updateTrie_keys accs = replicate (length accs) (last accs)"
proof -
  have "\<And>v. accs \<noteq> [] \<Longrightarrow> fold (\<lambda>a v. a) accs v = last accs"
    by (induction accs) auto
  then show "accs \<noteq> [] \<Longrightarrow> ?thesis"
    by (simp add: updateTrie_keys_def)
qed

lemma updateTrie_calls:
  assumes "bstate_accounts bs \<noteq> []"
  shows "trie_calls (snd (updateTrie c bs u s)) =
           trie_calls s @
             (case collect_vals (map (updateTrie_val c bs u) (updateTrie_accs bs)) of
                None \<Rightarrow> []
              | Some vals \<Rightarrow> [CallUpdate (updateTrie_keys (updateTrie_accs bs)) vals])"
  using assms
  by (cases "collect_vals (map (updateTrie_val c bs u) (updateTrie_accs bs))")
     (simp_all add: updateTrie_panic updateTrie_nonempty)





subsection \<open>Rollback\<close>









lemma put_states_apply:
  "distinct (map fst es) \<Longrightarrow>
   put_states es m k = (case map_of es k of None \<Rightarrow> m k | Some e \<Rightarrow> Some (State e))"
  unfolding put_states_def
proof (induction es arbitrary: m)
  case Nil
  then show ?case by simp
next
  case (Cons x es)
  obtain k' e' where x: "x = (k', e')" by (cases x)
  from Cons.prems x have "k' \<notin> fst ` set es" and d: "distinct (map fst es)" by auto
  then have "map_of es k' = None" by (simp add: map_of_eq_None_iff)
  with Cons.IH [OF d, of "m(k' \<mapsto> State e')"] x show ?case
    by (auto split: option.splits)
qed

lemma put_undos_apply:
  "distinct (map fst es) \<Longrightarrow>
   put_undos es m k = (case map_of es k of None \<Rightarrow> m k | Some e \<Rightarrow> Some (Undo e))"
  unfolding put_undos_def
proof (induction es arbitrary: m)
  case Nil
  then show ?case by simp
next
  case (Cons x es)
  obtain k' e' where x: "x = (k', e')" by (cases x)
  from Cons.prems x have "k' \<notin> fst ` set es" and d: "distinct (map fst es)" by auto
  then have "map_of es k' = None" by (simp add: map_of_eq_None_iff)
  with Cons.IH [OF d, of "m(k' \<mapsto> Undo e')"] x show ?case
    by (auto split: option.splits)
qed








lemma sdb1_eq:
  "sdb1 = \<lparr>accounts = [A2 \<mapsto> Some 50, A1 \<mapsto> Some 100],
            trie = [(A2, [1, 50])],
            latest = Some \<lparr>BlockNo = 1, BlockHash = h1, PrevHash = g_hash\<rparr>,
            statedb = [g_hash \<mapsto> genesis_bs, h1 \<mapsto> bs1],
            trie_calls = [CallUpdate [A2, A2] [[1, 100], [1, 50]]]\<rparr>"
  unfolding sdb1_def
  by (simp add: Apply_def bs1_eq genesis_sdb_def ref_collab_def updateTrie_def
      flush_and_return_def updateTrie_accs_def updateTrie_keys_def updateTrie_val_def
      put_states_def ref_hash_def Let_def A1_neq_A2 A1_before_A2)





lemma accs_bs: "updateTrie_accs bs2 = [A1]" "updateTrie_accs bs1 = [A1, A2]"
  by (simp_all add: bs1_eq bs2_eq updateTrie_accs_def A1_before_A2)







subsection \<open>The keys that reach the trie\<close>

lemma length_insert_less: "length (insert_less lt x ys) = Suc (length ys)"
  by (induction ys) auto

lemma length_sort_Slice: "length (sort_Slice lt xs) = length xs"
  by (induction xs) (auto simp: length_insert_less)

text \<open>
  For every block state with at least one account, the keys of the call that
  \<^verbatim>\<open>updateTrie\<close> makes are as many copies of the largest account id as there are accounts.
\<close>

lemma updateTrie_passes_largest_id:
  assumes "bstate_accounts bs \<noteq> []"
    and "collect_vals (map (updateTrie_val c bs u) (updateTrie_accs bs)) = Some vals"
  shows "trie_calls (snd (updateTrie c bs u s)) =
           trie_calls s @
             [CallUpdate (replicate (length (bstate_accounts bs)) (last (updateTrie_accs bs)))
                vals]"
proof -
  have "length (updateTrie_accs bs) = length (bstate_accounts bs)"
    by (simp add: updateTrie_accs_def length_sort_Slice)
  moreover from this assms(1) have "updateTrie_accs bs \<noteq> []" by auto
  ultimately show ?thesis
    using updateTrie_calls [OF assms(1), of c u s] assms(2)
    by (simp add: updateTrie_keys_last)
qed

lemma Apply_bs1: "Apply ref_collab bs1 genesis_sdb = (Ok (), sdb1)"
  unfolding sdb1_eq
  by (simp add: Apply_def bs1_eq genesis_sdb_def ref_collab_def updateTrie_def
      flush_and_return_def updateTrie_accs_def updateTrie_keys_def updateTrie_val_def
      put_states_def ref_hash_def Let_def A1_neq_A2 A1_before_A2)

lemma Rollback_sdb1_to_genesis:
  "Rollback ref_collab 0 sdb1 =
     Some (Ok (), sdb1\<lparr>accounts := [A2 \<mapsto> None, A1 \<mapsto> None],
                    trie := [(A2, [0])],
                    latest := Some \<lparr>BlockNo = 0, BlockHash = g_hash, PrevHash = emptyBlockID\<rparr>,
                    trie_calls := trie_calls sdb1 @ [CallUpdate [A2, A2] [[0], [0]]]\<rparr>)"
  by (simp add: sdb1_eq Rollback_def Rollback_loop.simps ref_collab_def hashes_distinct
      bs1_eq genesis_bs_def NewBlockState_def revertTrie_def updateTrie_def
      flush_and_return_def updateTrie_accs_def updateTrie_keys_def updateTrie_val_def
      put_undos_def ref_hash_def Let_def A1_neq_A2 A1_before_A2)

text \<open>
  C4 at block 1, which touches the accounts \<^verbatim>\<open>A1\<close> and \<^verbatim>\<open>A2\<close>. \<^verbatim>\<open>updateTrie\<close> sorts the
  account ids into the strictly ascending list \<^verbatim>\<open>[A1, A2]\<close>, but the keys it builds are
  slices of the one range variable: \<^verbatim>\<open>Apply\<close> of the block on the engine at genesis calls
  \<^verbatim>\<open>trie.Update\<close> with the keys \<^verbatim>\<open>[A2, A2]\<close>, and so does the \<^verbatim>\<open>Rollback(0)\<close> that follows
  it. The two passes do use the same key list, with the hashes of the post states and
  of the pre states as values, but that list is neither strictly ascending nor free of
  duplicates.
\<close>

theorem trie_keys_repeat_largest_id:
  "map fst (bstate_accounts bs1) = [A2, A1] \<and>
   updateTrie_accs bs1 = [A1, A2] \<and>
   Apply ref_collab bs1 genesis_sdb = (Ok (), sdb1) \<and>
   trie_calls sdb1 = [CallUpdate [A2, A2] [[1, 100], [1, 50]]] \<and>
   map_option fst (Rollback ref_collab 0 sdb1) = Some (Ok ()) \<and>
   map_option (trie_calls \<circ> snd) (Rollback ref_collab 0 sdb1) =
     Some [CallUpdate [A2, A2] [[1, 100], [1, 50]], CallUpdate [A2, A2] [[0], [0]]] \<and>
   \<not> sorted_wrt (\<lambda>a b. bytes_Compare a b = - 1) [A2, A2] \<and>
   \<not> distinct [A2, A2]"
  unfolding Rollback_sdb1_to_genesis Apply_bs1
  by (simp add: accs_bs) (simp add: sdb1_eq bs1_eq bytes_Compare_less)

subsection \<open>Apply followed by Rollback\<close>

text \<open>
  The two \<^verbatim>\<open>range\<close> loops over the accounts of a block state do not depend on the
  order in which the map is visited, and the loop of \<^verbatim>\<open>Rollback\<close> undoes the loop of
  \<^verbatim>\<open>Apply\<close> on every account map that holds, for each account of the block state, the
  pre state that the block state has stored for it.
\<close>

lemma put_undos_put_states:
  assumes "distinct (map fst es)"
    and "\<forall>(k, e) \<in> set es. m k = Some (Undo e)"
  shows "put_undos es (put_states es m) = m"
proof
  fix k
  show "put_undos es (put_states es m) k = m k"
  proof (cases "map_of es k")
    case None
    with assms(1) show ?thesis by (simp add: put_undos_apply put_states_apply)
  next
    case (Some e)
    then have "(k, e) \<in> set es" by (rule map_of_SomeD)
    with assms(2) have "m k = Some (Undo e)" by auto
    with Some assms(1) show ?thesis by (simp add: put_undos_apply)
  qed
qed

lemma A1_valid: "A1 \<noteq> emptyAccountID"
  by (simp add: A1_def emptyAccountID_def)

lemma lazy_sdb_eq: "lazy_sdb = genesis_sdb\<lparr>accounts := [A1 \<mapsto> Some 0]\<rparr>"
  by (simp add: lazy_sdb_def GetAccountStateClone_def getAccountState_def A1_valid genesis_sdb_def ref_collab_def Let_def)

lemma bs_create_eq:
  "bs_create = \<lparr>info = \<lparr>BlockNo = 1, BlockHash = h1, PrevHash = g_hash\<rparr>,
          bstate_accounts = [(A1, \<lparr>State = Some 100, Undo = None\<rparr>)]\<rparr>"
  by (simp add: bs_create_def PutAccount_def NewBlockState_def NewStateEntry_def ref_collab_def)

lemma Apply_create:
  "Apply ref_collab bs_create lazy_sdb =
     (Ok (), \<lparr>accounts = [A1 \<mapsto> Some 100], trie = [(A1, [1, 100])],
            latest = Some \<lparr>BlockNo = 1, BlockHash = h1, PrevHash = g_hash\<rparr>,
            statedb = [g_hash \<mapsto> genesis_bs, h1 \<mapsto> bs_create],
            trie_calls = [CallUpdate [A1] [[1, 100]]]\<rparr>)"
  by (simp add: lazy_sdb_eq Apply_def bs_create_eq genesis_sdb_def ref_collab_def updateTrie_def
      flush_and_return_def updateTrie_accs_def updateTrie_keys_def updateTrie_val_def put_states_def ref_hash_def
      Let_def)

lemma Apply_create_strict:
  "Apply nil_strict_collab bs_create lazy_sdb = Apply ref_collab bs_create lazy_sdb"
  by (simp add: lazy_sdb_eq Apply_def bs_create_eq genesis_sdb_def ref_collab_def
      nil_strict_collab_def updateTrie_def flush_and_return_def updateTrie_accs_def updateTrie_keys_def
      updateTrie_val_def put_states_def ref_hash_def Let_def)

lemma created_sdb_eq:
  "created_sdb =
     \<lparr>accounts = [A1 \<mapsto> Some 100], trie = [(A1, [1, 100])],
      latest = Some \<lparr>BlockNo = 1, BlockHash = h1, PrevHash = g_hash\<rparr>,
      statedb = [g_hash \<mapsto> genesis_bs, h1 \<mapsto> bs_create],
      trie_calls = [CallUpdate [A1] [[1, 100]]]\<rparr>"
  by (simp add: created_sdb_def Apply_create)

lemma Rollback_create:
  "Rollback ref_collab 0 created_sdb =
     Some (Ok (), \<lparr>accounts = [A1 \<mapsto> None], trie = [(A1, [0])],
            latest = Some \<lparr>BlockNo = 0, BlockHash = g_hash, PrevHash = emptyBlockID\<rparr>,
            statedb = [g_hash \<mapsto> genesis_bs, h1 \<mapsto> bs_create],
            trie_calls = [CallUpdate [A1] [[1, 100]], CallUpdate [A1] [[0]]]\<rparr>)"
  by (simp add: created_sdb_eq Rollback_def Rollback_loop.simps ref_collab_def hashes_distinct
      bs_create_eq genesis_bs_def NewBlockState_def revertTrie_def updateTrie_def
      flush_and_return_def updateTrie_accs_def updateTrie_keys_def updateTrie_val_def put_undos_def ref_hash_def
      Let_def)

lemma Rollback_create_strict:
  "map_option fst (Rollback nil_strict_collab 0 created_sdb) = Some Panic"
  by (simp add: created_sdb_eq Rollback_def Rollback_loop.simps ref_collab_def
      nil_strict_collab_def hashes_distinct bs_create_eq genesis_bs_def NewBlockState_def
      revertTrie_def updateTrie_def flush_and_return_def updateTrie_accs_def updateTrie_keys_def updateTrie_val_def
      put_undos_def ref_hash_def Let_def)

text \<open>
  C3 at an account created by the block. The engine has read \<^verbatim>\<open>A1\<close> once, so its map
  holds the empty state for it; the block gives \<^verbatim>\<open>A1\<close> the balance 100, and
  \<^verbatim>\<open>NewStateEntry\<close> stores the empty pre state as a nil \<^verbatim>\<open>Undo\<close>. \<^verbatim>\<open>Apply\<close> succeeds.
  \<^verbatim>\<open>Rollback(0)\<close> then writes the nil pointer into the account map: the map is not the
  one before \<^verbatim>\<open>Apply\<close>, \<^verbatim>\<open>GetAccountStateClone\<close> of \<^verbatim>\<open>A1\<close>, which returned the empty
  state before, now panics, and the trie has a leaf for \<^verbatim>\<open>A1\<close> that it did not have.
  With a \<^verbatim>\<open>GetHash\<close> that reads through its receiver, \<^verbatim>\<open>Rollback\<close> itself panics.
\<close>

theorem Apply_Rollback_null_undo:
  "accounts lazy_sdb A1 = Some (Some 0) \<and>
   GetAccountStateClone ref_collab A1 lazy_sdb = (Ok 0, lazy_sdb) \<and>
   GetHash ref_collab lazy_sdb = [] \<and>
   map_of (bstate_accounts bs_create) A1 = Some \<lparr>State = Some 100, Undo = None\<rparr> \<and>
   Apply ref_collab bs_create lazy_sdb = (Ok (), created_sdb) \<and>
   Apply nil_strict_collab bs_create lazy_sdb = (Ok (), created_sdb) \<and>
   (\<exists>sdb'. Rollback ref_collab 0 created_sdb = Some (Ok (), sdb') \<and>
      accounts sdb' A1 = Some None \<and>
      fst (GetAccountStateClone ref_collab A1 sdb') = Panic \<and>
      GetHash ref_collab sdb' = A1 @ [0]) \<and>
   map_option fst (Rollback nil_strict_collab 0 created_sdb) = Some Panic"
proof -
  have "accounts lazy_sdb A1 = Some (Some 0)"
    by (simp add: lazy_sdb_eq)
  moreover have "GetAccountStateClone ref_collab A1 lazy_sdb = (Ok 0, lazy_sdb)"
    by (simp add: lazy_sdb_eq GetAccountStateClone_def getAccountState_def A1_valid)
  moreover have "GetHash ref_collab lazy_sdb = []"
    by (simp add: lazy_sdb_eq GetHash_def ref_collab_def genesis_sdb_def)
  moreover have "map_of (bstate_accounts bs_create) A1 = Some \<lparr>State = Some 100, Undo = None\<rparr>"
    by (simp add: bs_create_eq)
  moreover have "Apply ref_collab bs_create lazy_sdb = (Ok (), created_sdb)"
    by (simp add: Apply_create created_sdb_eq)
  moreover have "Apply nil_strict_collab bs_create lazy_sdb = (Ok (), created_sdb)"
    by (simp add: Apply_create_strict Apply_create created_sdb_eq)
  moreover have "\<exists>sdb'. Rollback ref_collab 0 created_sdb = Some (Ok (), sdb') \<and>
      accounts sdb' A1 = Some None \<and>
      fst (GetAccountStateClone ref_collab A1 sdb') = Panic \<and>
      GetHash ref_collab sdb' = A1 @ [0]"
    unfolding Rollback_create
    by (simp add: GetAccountStateClone_def getAccountState_def A1_valid GetHash_def
        ref_collab_def)
  ultimately show ?thesis
    using Rollback_create_strict by simp
qed

subsection \<open>The trie is never committed\<close>

lemma updateTrie_never_commits:
  "filter (\<lambda>x. x = CallCommit) (trie_calls (snd (updateTrie c b u s))) =
   filter (\<lambda>x. x = CallCommit) (trie_calls s)"
  by (simp add: updateTrie_def Let_def split: option.splits prod.splits)

lemma Apply_never_commits:
  "filter (\<lambda>x. x = CallCommit) (trie_calls (snd (Apply c bs sdb))) =
   filter (\<lambda>x. x = CallCommit) (trie_calls sdb)"
proof (cases "fst (Apply c bs sdb) = Ok ()")
  case True
  from Apply_trie_calls [OF True] show ?thesis
    by (simp add: updateTrie_never_commits)
next
  case False
  show ?thesis
  proof (cases "latest sdb")
    case None
    then show ?thesis by (simp add: Apply_def)
  next
    case (Some l)
    let ?s2 = "sdb\<lparr>statedb := saveBlockState c (statedb sdb) bs,
                     accounts := put_states (bstate_accounts bs) (accounts sdb)\<rparr>"
    obtain r s3 where u: "updateTrie c bs False ?s2 = (r, s3)"
      by (cases "updateTrie c bs False ?s2")
    from updateTrie_never_commits [of c bs False ?s2] u
    have k: "filter (\<lambda>x. x = CallCommit) (trie_calls s3) =
             filter (\<lambda>x. x = CallCommit) (trie_calls sdb)"
      by simp
    from Some u k show ?thesis
      by (cases r) (simp_all add: Apply_def Let_def trie_calls_flush)
  qed
qed

text \<open>
  C5 at block 1 on the engine at genesis: the block touches two accounts, \<^verbatim>\<open>Apply\<close>
  succeeds, and the only call it makes on the trie is the \<^verbatim>\<open>Update\<close>; there is no
  \<^verbatim>\<open>Commit\<close>. By \<open>Apply_never_commits\<close> no \<^verbatim>\<open>Apply\<close> whatever calls \<^verbatim>\<open>Commit\<close>.
\<close>

theorem Apply_does_not_commit:
  "fst (Apply ref_collab bs1 genesis_sdb) = Ok () \<and>
   trie_calls (snd (Apply ref_collab bs1 genesis_sdb)) = [CallUpdate [A2, A2] [[1, 100], [1, 50]]] \<and>
   CallCommit \<notin> set (trie_calls (snd (Apply ref_collab bs1 genesis_sdb)))"
  using sdb1_eq
  by (simp add: sdb1_def)
     (simp add: Apply_def bs1_eq genesis_sdb_def ref_collab_def updateTrie_def
      flush_and_return_def updateTrie_accs_def updateTrie_keys_def updateTrie_val_def put_states_def ref_hash_def
      Let_def A1_neq_A2 A1_before_A2)

section \<open>Properties of the peer manager and of the p2p requests\<close>

subsection \<open>Broadcast of notices\<close>

lemma NotifyNewBlock_loop_running:
  "(p, m) \<in> set (NotifyNewBlock_loop nb ps) \<Longrightarrow> state p = RUNNING \<and> Some p \<in> set ps"
  by (induction nb ps rule: NotifyNewBlock_loop.induct) (auto simp: Let_def split: if_splits)

lemma NotifyNewBlock_only_running:
  "(p, m) \<in> set (snd (NotifyNewBlock pm nb)) \<Longrightarrow> state p = RUNNING"
  by (auto simp: NotifyNewBlock_def dest: NotifyNewBlock_loop_running)

text \<open>
  C7 at a peer manager with a running peer and a peer that is still in its handshake:
  \<^verbatim>\<open>NotifyNewTX\<close> sends the notice to both, \<^verbatim>\<open>NotifyNewBlock\<close> to the running one only
  (\<open>NotifyNewBlock_only_running\<close> has it for every peer manager).
\<close>

theorem NotifyNewTX_reaches_handshaking_peer:
  "state peer_B = HANDSHAKING \<and>
   NotifyNewTX ex_pm ex_txs = (Ok True, [(peer_A, tx_notice), (peer_B, tx_notice)]) \<and>
   NotifyNewBlock ex_pm ex_newBlock =
     (Ok True, [(peer_A, newPbMsgBroadcastOrder False newBlockNotice (NewBlockNotice [0xB1] 1))])"
  by (simp add: NotifyNewTX_def NotifyNewBlock_def GetPeers_def ex_pm_def ex_txs_def
      ex_newBlock_def tx_notice_def peer_A_def peer_B_def Let_def)

lemma NotifyNewTX_loop_protocol:
  "(p, m) \<in> set (snd (NotifyNewTX_loop hashes ps)) \<Longrightarrow>
     m = newPbMsgBroadcastOrder False newBlockNotice (NewTransactionsNotice hashes)"
  by (induction hashes ps rule: NotifyNewTX_loop.induct) (auto simp: Let_def split: prod.splits)

text \<open>
  C10: every order that \<^verbatim>\<open>NotifyNewTX\<close> sends carries the protocol id of the new-block
  notice, which is not the id of the new-transaction notice, and the
  \<^verbatim>\<open>NewTransactionsNotice\<close> of the hashes of the transactions.
\<close>

theorem NotifyNewTX_protocol_id:
  "\<forall>(p, m) \<in> set (snd (NotifyNewTX pm newTXs)).
     protocolID m = newBlockNotice \<and> protocolID m \<noteq> newTxNotice \<and>
     message m = NewTransactionsNotice (map tx_Hash newTXs)"
proof -
  have "newBlockNotice \<noteq> newTxNotice"
    by (simp add: newBlockNotice_def newTxNotice_def)
  then show ?thesis
    by (auto simp: NotifyNewTX_def Let_def newPbMsgBroadcastOrder_def
        dest!: NotifyNewTX_loop_protocol)
qed

theorem NotifyNewTX_protocol_id_witness:
  "(peer_A, tx_notice) \<in> set (snd (NotifyNewTX ex_pm ex_txs)) \<and>
   protocolID tx_notice = ''newBlock/notice'' \<and>
   protocolID tx_notice \<noteq> ''newTX/notice'' \<and>
   message tx_notice = NewTransactionsNotice [[0x11], [0x22]]"
proof -
  have m: "(peer_A, tx_notice) \<in> set (snd (NotifyNewTX ex_pm ex_txs))"
    by (simp add: NotifyNewTX_def GetPeers_def ex_pm_def ex_txs_def tx_notice_def Let_def)
  with NotifyNewTX_protocol_id [of ex_pm ex_txs]
  have "protocolID tx_notice = newBlockNotice \<and> protocolID tx_notice \<noteq> newTxNotice \<and>
     message tx_notice = NewTransactionsNotice (map tx_Hash ex_txs)"
    by blast
  with m show ?thesis
    by (simp add: newBlockNotice_def newTxNotice_def ex_txs_def)
qed

subsection \<open>Requests\<close>

text \<open>
  C9 at the empty list: for a registered peer, \<^verbatim>\<open>GetMissingBlocks\<close> with no hashes
  panics on \<^verbatim>\<open>bhashes[1:]\<close>. With two hashes it sends the request and returns true; for
  an unknown peer it returns false. \<^verbatim>\<open>GetTXs\<close> returns false on the empty list.
\<close>

theorem GetMissingBlocks_empty_panics:
  "GetPeer ex_pm ''peer-A'' = Some peer_A \<and>
   GetMissingBlocks ex_pm ''peer-A'' [] = (Panic, []) \<and>
   GetMissingBlocks ex_pm ''peer-A'' [[0x01], [0x02]] =
     (Ok True, [(peer_A, newPbMsgRequestOrder False True getMissingRequest
                           (GetMissingRequest [[0x02]] [0x01]))]) \<and>
   GetMissingBlocks ex_pm ''peer-Z'' [] = (Ok False, []) \<and>
   GetTXs ex_pm ''peer-A'' [] = (Ok False, [])"
  by (simp add: GetMissingBlocks_def GetTXs_def GetPeer_def ex_pm_def)

subsection \<open>Authentication\<close>

lemma AuthenticateMessage_always: "AuthenticateMessage c msg data"
  by (simp add: AuthenticateMessage_def)

text \<open>
  C6 at an envelope whose signature does not verify: \<^verbatim>\<open>VerifyData\<close> rejects it, and
  so would the statements of \<^verbatim>\<open>AuthenticateMessage\<close> that are never reached, but
  \<^verbatim>\<open>AuthenticateMessage\<close> returns true, as it does for every message
  (\<open>AuthenticateMessage_always\<close>).
\<close>

theorem AuthenticateMessage_accepts_forged:
  "VerifyData ref_crypto [0x07] (Sign signed) ''peer-A'' (NodePubKey signed) \<and>
   \<not> VerifyData ref_crypto [0x07] (Sign forged) ''peer-A'' (NodePubKey forged) \<and>
   \<not> AuthenticateMessage_unreachable ref_crypto [0x07] forged \<and>
   AuthenticateMessage ref_crypto [0x07] forged"
  by (simp add: AuthenticateMessage_def AuthenticateMessage_unreachable_def VerifyData_def
      ref_crypto_def forged_def signed_def)

subsection \<open>Duplicate block notices\<close>

lemma lru_Contains_iff: "lru_Contains cache k = (k \<in> fst ` set (lru_items cache))"
  by (simp add: lru_Contains_def map_of_eq_None_iff)

lemma takeWhile_stops: "(length (takeWhile P xs) < length xs) = (\<exists>x \<in> set xs. \<not> P x)"
  by (induction xs) auto

lemma lru_Contains_age: "lru_Contains cache k = (lru_age cache k < length (lru_items cache))"
  by (auto simp: lru_Contains_iff lru_age_def takeWhile_stops)

lemma takeWhile_butlast:
  "length (takeWhile P xs) < length xs - 1 \<Longrightarrow> takeWhile P (butlast xs) = takeWhile P xs"
  by (induction xs) (auto split: if_splits)

lemma lru_add_other:
  assumes "lru_Contains cache k" and "lru_age cache k + 1 < lru_size cache"
    and "length (lru_items cache) \<le> lru_size cache"
    and "cache' = snd (snd (lru_ContainsOrAdd cache k' v'))"
  shows "lru_Contains cache' k \<and> lru_age cache' k \<le> lru_age cache k + 1 \<and>
         length (lru_items cache') \<le> lru_size cache' \<and> lru_size cache' = lru_size cache"
proof (cases "lru_Contains cache k'")
  case True
  with assms show ?thesis by (simp add: lru_ContainsOrAdd_def)
next
  case False
  with assms(1) have ne: "k' \<noteq> k" by auto
  let ?items = "(k', v') # lru_items cache"
  have age: "length (takeWhile (\<lambda>e. fst e \<noteq> k) ?items) = lru_age cache k + 1"
    using ne by (simp add: lru_age_def)
  have lt: "lru_age cache k < length (lru_items cache)"
    using assms(1) by (simp add: lru_Contains_age)
  show ?thesis
  proof (cases "length ?items > lru_size cache")
    case evict: True
    with assms(3) have len: "length (lru_items cache) = lru_size cache" by simp
    have c': "cache' = cache\<lparr>lru_items := butlast ?items\<rparr>"
      using False evict assms(4) by (simp add: lru_ContainsOrAdd_def Let_def)
    have "length (takeWhile (\<lambda>e. fst e \<noteq> k) ?items) < length ?items - 1"
      using age assms(2) len by simp
    from takeWhile_butlast [OF this]
    have tw: "takeWhile (\<lambda>e. fst e \<noteq> k) (butlast ?items) = takeWhile (\<lambda>e. fst e \<noteq> k) ?items" .
    have a': "lru_age cache' k = lru_age cache k + 1"
      unfolding c' lru_age_def using tw age by (simp add: lru_age_def)
    have l': "length (lru_items cache') = lru_size cache"
      unfolding c' using len lt by (cases "lru_items cache") auto
    from a' l' assms(2) have "lru_Contains cache' k"
      by (simp add: lru_Contains_age)
    with a' l' c' show ?thesis by simp
  next
    case keep: False
    have c': "cache' = cache\<lparr>lru_items := ?items\<rparr>"
      using False keep assms(4) by (simp add: lru_ContainsOrAdd_def Let_def)
    have a': "lru_age cache' k = lru_age cache k + 1"
      unfolding c' using age by (simp add: lru_age_def)
    have "lru_Contains cache' k"
      using a' lt c' by (simp add: lru_Contains_age)
    with a' keep c' show ?thesis by simp
  qed
qed

lemma invCache_HandleNewBlockNotice:
  "invCache (fst (snd (HandleNewBlockNotice chainSvc peerID b64hash h ps))) =
     snd (snd (lru_ContainsOrAdd (invCache ps) b64hash h))"
  by (simp add: HandleNewBlockNotice_def Let_def split: prod.splits call_response.splits)

lemma handle_notices_keep:
  assumes "lru_Contains (invCache ps) k"
    and "lru_age (invCache ps) k + length ns < lru_size (invCache ps)"
    and "length (lru_items (invCache ps)) \<le> lru_size (invCache ps)"
  shows "lru_Contains (invCache (handle_notices ns ps)) k"
  using assms
proof (induction ns arbitrary: ps)
  case Nil
  then show ?case by simp
next
  case (Cons n ns)
  obtain chainSvc peerID b64hash h where n: "n = (chainSvc, peerID, b64hash, h)"
    by (cases n) auto
  let ?ps = "fst (snd (HandleNewBlockNotice chainSvc peerID b64hash h ps))"
  have step: "lru_Contains (invCache ?ps) k \<and> lru_age (invCache ?ps) k \<le> lru_age (invCache ps) k + 1 \<and>
         length (lru_items (invCache ?ps)) \<le> lru_size (invCache ?ps) \<and>
         lru_size (invCache ?ps) = lru_size (invCache ps)"
    using Cons.prems
    by (intro lru_add_other [where k' = b64hash and v' = h]) (simp_all add: invCache_HandleNewBlockNotice)
  then have "lru_Contains (invCache (handle_notices ns ?ps)) k"
    using Cons.prems(2) by (intro Cons.IH) simp_all
  then show ?case by (simp add: n)
qed

lemma lru_add_new:
  assumes "\<not> lru_Contains cache k" and "0 < lru_size cache"
    and "length (lru_items cache) \<le> lru_size cache"
    and "cache' = snd (snd (lru_ContainsOrAdd cache k v))"
  shows "lru_Contains cache' k \<and> lru_age cache' k = 0 \<and>
         length (lru_items cache') \<le> lru_size cache' \<and> lru_size cache' = lru_size cache"
proof (cases "length ((k, v) # lru_items cache) > lru_size cache")
  case True
  with assms(2,3) have "lru_items cache \<noteq> []" by auto
  then have "butlast ((k, v) # lru_items cache) = (k, v) # butlast (lru_items cache)" by simp
  with True assms show ?thesis
    by (simp add: lru_ContainsOrAdd_def Let_def lru_Contains_iff lru_age_def)
next
  case False
  with assms show ?thesis
    by (simp add: lru_ContainsOrAdd_def Let_def lru_Contains_iff lru_age_def)
qed

lemma HandleNewBlockNotice_known:
  "lru_Contains (invCache ps) b64hash \<Longrightarrow>
   HandleNewBlockNotice chainSvc peerID b64hash h ps = (Ok (), ps, [])"
  by (simp add: HandleNewBlockNotice_def lru_ContainsOrAdd_def)

lemma HandleNewBlockNotice_new:
  "\<not> lru_Contains (invCache ps) b64hash \<Longrightarrow>
   snd (snd (HandleNewBlockNotice chainSvc peerID b64hash h ps)) =
     CallRequest_ChainSvc_GetBlock h #
       (case chainSvc h of
          GetBlockRsp (Some e) \<Rightarrow> [SendRequest_P2PSvc_GetBlockInfos peerID [h]]
        | _ \<Rightarrow> [])"
  by (simp add: HandleNewBlockNotice_def lru_ContainsOrAdd_def Let_def
      split: call_response.splits option.splits)

text \<open>
  C8: the cache has the size 100 that \<^verbatim>\<open>NewPeerManager\<close> gives it and does not hold the
  hash. The first notice of the hash, from \<open>peerA\<close>, makes one \<^verbatim>\<open>GetBlock\<close> request to
  the chain service, followed by one \<^verbatim>\<open>GetBlockInfos\<close> request to \<open>peerA\<close> exactly when
  the chain service answers with an error in its response (block not found). After
  fewer than 100 notices in between, whatever they are, the hash is still in the cache:
  a second notice of it, from any peer, returns normally, makes no request and changes
  nothing. The two notices together make exactly one \<^verbatim>\<open>GetBlock\<close> request. This holds
  for every answer of the chain service, also the nil response on which the first call
  panics in its log statement: the request has been made and the hash inserted before.
\<close>

theorem HandleNewBlockNotice_dedup:
  assumes "\<not> lru_Contains (invCache ps) b64hash"
    and "lru_size (invCache ps) = DefaultGlobalInvCacheSize"
    and "length (lru_items (invCache ps)) \<le> DefaultGlobalInvCacheSize"
    and "length between < DefaultGlobalInvCacheSize"
    and "HandleNewBlockNotice chainSvc peerA b64hash h ps = (r1, ps1, reqs1)"
    and "HandleNewBlockNotice chainSvc' peerB b64hash h' (handle_notices between ps1) =
           (r2, ps2, reqs2)"
  shows "reqs1 = CallRequest_ChainSvc_GetBlock h #
                   (case chainSvc h of
                      GetBlockRsp (Some e) \<Rightarrow> [SendRequest_P2PSvc_GetBlockInfos peerA [h]]
                    | _ \<Rightarrow> []) \<and>
         reqs2 = [] \<and> ps2 = handle_notices between ps1 \<and> r2 = Ok () \<and>
         filter is_GetBlock (reqs1 @ reqs2) = [CallRequest_ChainSvc_GetBlock h]"
proof -
  have r1: "reqs1 = CallRequest_ChainSvc_GetBlock h #
                   (case chainSvc h of
                      GetBlockRsp (Some e) \<Rightarrow> [SendRequest_P2PSvc_GetBlockInfos peerA [h]]
                    | _ \<Rightarrow> [])"
    using HandleNewBlockNotice_new [OF assms(1), of chainSvc peerA h] assms(5) by simp
  have c1: "invCache ps1 = snd (snd (lru_ContainsOrAdd (invCache ps) b64hash h))"
    using invCache_HandleNewBlockNotice [of chainSvc peerA b64hash h ps] assms(5) by simp
  have new: "lru_Contains (invCache ps1) b64hash \<and> lru_age (invCache ps1) b64hash = 0 \<and>
         length (lru_items (invCache ps1)) \<le> lru_size (invCache ps1) \<and>
         lru_size (invCache ps1) = lru_size (invCache ps)"
    using assms(1,2,3) c1
    by (intro lru_add_new [where v = h]) (simp_all add: DefaultGlobalInvCacheSize_def)
  have "lru_Contains (invCache (handle_notices between ps1)) b64hash"
    using new assms(2,4) by (intro handle_notices_keep) simp_all
  from HandleNewBlockNotice_known [OF this, of chainSvc' peerB h'] assms(6)
  have r2: "reqs2 = []" "ps2 = handle_notices between ps1" "r2 = Ok ()" by simp_all
  have "filter is_GetBlock reqs1 = [CallRequest_ChainSvc_GetBlock h]"
    unfolding r1 by (simp split: call_response.splits option.splits)
  with r1 r2 show ?thesis by simp
qed

theorem HandleNewBlockNotice_dedup_witness:
  "snd (snd (HandleNewBlockNotice not_found ''peer-A'' ''sQ=='' [0xB1] ex_pm)) =
     [CallRequest_ChainSvc_GetBlock [0xB1], SendRequest_P2PSvc_GetBlockInfos ''peer-A'' [[0xB1]]] \<and>
   lru_items (invCache (handle_notices ex_between
       (fst (snd (HandleNewBlockNotice not_found ''peer-A'' ''sQ=='' [0xB1] ex_pm))))) =
     [(''sg=='', [0xB2]), (''sQ=='', [0xB1])] \<and>
   snd (snd (HandleNewBlockNotice not_found ''peer-B'' ''sQ=='' [0xB1]
         (handle_notices ex_between
            (fst (snd (HandleNewBlockNotice not_found ''peer-A'' ''sQ=='' [0xB1] ex_pm)))))) = []"
proof -
  let ?first = "HandleNewBlockNotice not_found ''peer-A'' ''sQ=='' [0xB1] ex_pm"
  let ?second = "HandleNewBlockNotice not_found ''peer-B'' ''sQ=='' [0xB1]
         (handle_notices ex_between (fst (snd ?first)))"
  have a1: "\<not> lru_Contains (invCache ex_pm) ''sQ==''"
    by (simp add: ex_pm_def lru_Contains_def)
  have a2: "lru_size (invCache ex_pm) = DefaultGlobalInvCacheSize"
    by (simp add: ex_pm_def)
  have a3: "length (lru_items (invCache ex_pm)) \<le> DefaultGlobalInvCacheSize"
    by (simp add: ex_pm_def)
  have a4: "length ex_between < DefaultGlobalInvCacheSize"
    by (simp add: ex_between_def DefaultGlobalInvCacheSize_def)
  have a5: "?first = (fst ?first, fst (snd ?first), snd (snd ?first))" by simp
  have a6: "?second = (fst ?second, fst (snd ?second), snd (snd ?second))" by simp
  have items: "lru_items (invCache (handle_notices ex_between (fst (snd ?first)))) =
     [(''sg=='', [0xB2]), (''sQ=='', [0xB1])]"
    by (simp add: ex_between_def HandleNewBlockNotice_def lru_ContainsOrAdd_def lru_Contains_def
        ex_pm_def not_found_def DefaultGlobalInvCacheSize_def Let_def)
  from HandleNewBlockNotice_dedup [OF a1 a2 a3 a4 a5 a6] items
  show ?thesis by (simp add: not_found_def)
qed

end
